theory Spec2Isabelle
  imports Main "HOL-Library.Word"
begin

section \<open>The streaming subscriber of \<^verbatim>\<open>SubscribeSocialSentiment/client.py\<close>\<close>

text \<open>
  The script is one straight line of calls into the Python runtime and the RPC library,
  followed by one loop over a server-pushed stream:
  \<^verbatim>\<open>
   1  import sys; sys.path.append('../../')
   3  import grpc
   5  import types_pb2_grpc
   6  from google.protobuf import empty_pb2
   8  SERVER_ADDRESS = 'SERVER'
   9  PATH_TO_CERT_FILE = './cert.pem'
  12  def main():
  14      creds = grpc.ssl_channel_credentials(open(PATH_TO_CERT_FILE, 'rb').read())
  17      channel = grpc.secure_channel(SERVER_ADDRESS, creds)
  20      stub = types_pb2_grpc.MessagesProxyStub(channel)
  23      candle_stream = stub.SubscribeSocialSentiment(empty_pb2.Empty())
  24      for candle in candle_stream:
  26          print(candle.id, candle.sentiment_avg)
  29  if __name__ == '__main__':
  30      main()
  \<close>
  It is embedded in two layers. The first, \<open>step\<close>, is the script's own statements, one
  call per step, taken with its modules loaded and with a standard output that accepts what
  is written. The calls that leave the script (file system, RPC library, generated stub,
  \<^verbatim>\<open>str\<close>) are parameters of the model: each either returns a value or raises. The script
  catches nothing, so whatever is raised reaches the top level, where the interpreter writes
  a traceback to standard error and the process exits with status 1; a script that runs to
  its end exits with status 0. The second layer, \<open>step_io\<close>, puts the interpreter around
  the first: it loads the modules of lines 3 to 6 through \<^verbatim>\<open>sys.path\<close>, lets a write to
  standard output fail, lets the library touch the file system, and flushes standard
  output when the process ends.
\<close>

subsection \<open>Data\<close>

type_synonym bytes = "8 word list"

definition SERVER_ADDRESS :: string where
  "SERVER_ADDRESS = ''SERVER''"

definition PATH_TO_CERT_FILE :: string where
  "PATH_TO_CERT_FILE = ''./cert.pem''"

text \<open>
  The script names no exception class. The four kinds below classify what the calls it
  makes can raise: an \<^verbatim>\<open>OSError\<close> of \<^verbatim>\<open>open\<close>/\<^verbatim>\<open>read\<close>, a rejected certificate, a channel
  that cannot be set up, and an RPC error while the stream is read. The model lets every
  library call raise any of them.
\<close>

datatype error = FileError | CredentialFormatError | ConnectionError | StreamError

text \<open>A path of the file system holds nothing, a file that cannot be read, or bytes.\<close>

datatype file_entry = Unreadable | Contents bytes

text \<open>The opaque objects handed from one call to the next.\<close>

datatype creds = ChannelCredentials bytes

datatype channel = Channel string creds

datatype stub = Stub channel

text \<open>
  A received message. The script reads the attributes \<^verbatim>\<open>id\<close> and \<^verbatim>\<open>sentiment_avg\<close>; the
  message type is generated from a schema that is not part of the script, so the types
  of both fields are left open, and the record's extension slot stands for whatever other
  fields the schema has.
\<close>

record ('i, 'f) candle =
  id_field :: 'i
  sentiment_avg :: 'f

text \<open>
  The response iterator of a server-streaming call, seen through \<^verbatim>\<open>next\<close>: it returns a
  message and the rest of the stream, raises \<^verbatim>\<open>StopIteration\<close> (the server has closed the
  stream), or raises an error. A stream may go on forever.
\<close>

codatatype 'c candle_stream =
    Yield 'c "'c candle_stream"
  | StopIteration
  | Raise error

text \<open>The stream that delivers the messages of a list and then goes on as \<open>rest\<close>.\<close>

fun feed :: "'c list \<Rightarrow> 'c candle_stream \<Rightarrow> 'c candle_stream" where
  "feed [] rest = rest"
| "feed (c # cs) rest = Yield c (feed cs rest)"

text \<open>
  What lies outside the script: the RPC library (\<^verbatim>\<open>grpc\<close>), the generated stub class and
  its streaming method, and \<^verbatim>\<open>str\<close> on the two field types (called by \<^verbatim>\<open>print\<close>).
\<close>

record ('i, 'f, 'z) env =
  ssl_channel_credentials :: "bytes \<Rightarrow> error + creds"
  secure_channel :: "string \<Rightarrow> creds \<Rightarrow> error + channel"
  MessagesProxyStub :: "channel \<Rightarrow> error + stub"
  SubscribeSocialSentiment :: "stub \<Rightarrow> error + ('i, 'f, 'z) candle_scheme candle_stream"
  str_id :: "'i \<Rightarrow> string"
  str_sentiment_avg :: "'f \<Rightarrow> string"

subsection \<open>The process\<close>

text \<open>
  The point the process has reached, with the local variables live there:
  \<^item> \<open>At_sys_path_append\<close>: line 1;
  \<^item> \<open>At_open_read\<close>: line 14, \<^verbatim>\<open>open(PATH_TO_CERT_FILE, 'rb').read()\<close>;
  \<^item> \<open>At_ssl_channel_credentials\<close>: line 14, the constructor applied to the bytes read;
  \<^item> \<open>At_secure_channel\<close>: line 17, holding \<^verbatim>\<open>creds\<close>;
  \<^item> \<open>At_MessagesProxyStub\<close>: line 20, holding \<^verbatim>\<open>channel\<close>;
  \<^item> \<open>At_SubscribeSocialSentiment\<close>: line 23, holding \<^verbatim>\<open>stub\<close>;
  \<^item> \<open>At_for_iter\<close>: line 24, the \<^verbatim>\<open>for\<close> statement takes the iterator of \<^verbatim>\<open>candle_stream\<close>;
  \<^item> \<open>At_for_next\<close>: line 24, each turn of the loop asks the iterator for the next message;
  \<^item> \<open>At_print\<close>: line 26, holding \<^verbatim>\<open>candle\<close>;
  \<^item> \<open>Exited\<close>: the process has ended with this status.
\<close>

datatype ('i, 'f, 'z) control =
    At_sys_path_append
  | At_open_read
  | At_ssl_channel_credentials bytes
  | At_secure_channel creds
  | At_MessagesProxyStub channel
  | At_SubscribeSocialSentiment stub
  | At_for_iter "('i, 'f, 'z) candle_scheme candle_stream"
  | At_for_next "('i, 'f, 'z) candle_scheme candle_stream"
  | At_print "('i, 'f, 'z) candle_scheme" "('i, 'f, 'z) candle_scheme candle_stream"
  | Exited nat

text \<open>The calls the script makes, in the order it makes them.\<close>

datatype call =
    Call_open string
  | Call_ssl_channel_credentials
  | Call_secure_channel string
  | Call_MessagesProxyStub
  | Call_SubscribeSocialSentiment
  | Call_iter
  | Call_next
  | Call_print string

record ('i, 'f, 'z) process =
  control :: "('i, 'f, 'z) control"
  stdout :: string
  stderr :: string
  exception :: "error option"
  sys_path :: "string list"
  files :: "string \<rightharpoonup> file_entry"
  environ :: "string \<rightharpoonup> string"
  calls :: "call list"

definition newline :: char where
  "newline = CHR 0x0A"

text \<open>\<^verbatim>\<open>open(path, 'rb').read()\<close>: the whole contents, or an \<^verbatim>\<open>OSError\<close>.\<close>

definition open_read :: "(string \<rightharpoonup> file_entry) \<Rightarrow> string \<Rightarrow> error + bytes" where
  "open_read fs path =
     (case fs path of
        None \<Rightarrow> Inl FileError
      | Some Unreadable \<Rightarrow> Inl FileError
      | Some (Contents bs) \<Rightarrow> Inr bs)"

text \<open>\<^verbatim>\<open>print(a, b)\<close> writes \<^verbatim>\<open>str(a)\<close>, a space, \<^verbatim>\<open>str(b)\<close> and a newline.\<close>

definition print_text :: "('i, 'f, 'z) env \<Rightarrow> ('i, 'f, 'z) candle_scheme \<Rightarrow> string" where
  "print_text env candle =
     str_id env (id_field candle) @ '' '' @ str_sentiment_avg env (sentiment_avg candle) @ [newline]"

definition error_name :: "error \<Rightarrow> string" where
  "error_name e =
     (case e of
        FileError \<Rightarrow> ''FileError''
      | CredentialFormatError \<Rightarrow> ''CredentialFormatError''
      | ConnectionError \<Rightarrow> ''ConnectionError''
      | StreamError \<Rightarrow> ''StreamError'')"

text \<open>What the interpreter writes for an exception nobody caught.\<close>

definition traceback :: "error \<Rightarrow> string" where
  "traceback e = ''Traceback (most recent call last):'' @ [newline] @ error_name e @ [newline]"

definition called :: "call \<Rightarrow> ('i, 'f, 'z) process \<Rightarrow> ('i, 'f, 'z) process" where
  "called c p = p\<lparr>calls := calls p @ [c]\<rparr>"

text \<open>An exception reaches the top level: traceback on standard error, exit status 1.\<close>

definition uncaught :: "error \<Rightarrow> ('i, 'f, 'z) process \<Rightarrow> ('i, 'f, 'z) process" where
  "uncaught e p = p\<lparr>control := Exited 1, stderr := stderr p @ traceback e, exception := Some e\<rparr>"

definition goto :: "('i, 'f, 'z) control \<Rightarrow> ('i, 'f, 'z) process \<Rightarrow> ('i, 'f, 'z) process" where
  "goto c p = p\<lparr>control := c\<rparr>"

text \<open>
  One step of the script. Each call is recorded, then it returns or raises; an exception
  is caught nowhere. Reading an attribute of a message, taking the iterator of the stream
  and writing to standard output are taken not to raise (the second layer lets a write
  fail). A process that has exited stays as it is.
\<close>

definition step :: "('i, 'f, 'z) env \<Rightarrow> ('i, 'f, 'z) process \<Rightarrow> ('i, 'f, 'z) process" where
  "step env p =
     (case control p of
        At_sys_path_append \<Rightarrow>
          goto At_open_read (p\<lparr>sys_path := sys_path p @ [''../../'']\<rparr>)
      | At_open_read \<Rightarrow>
          (case open_read (files p) PATH_TO_CERT_FILE of
             Inl e \<Rightarrow> uncaught e (called (Call_open PATH_TO_CERT_FILE) p)
           | Inr bs \<Rightarrow> goto (At_ssl_channel_credentials bs) (called (Call_open PATH_TO_CERT_FILE) p))
      | At_ssl_channel_credentials bs \<Rightarrow>
          (case ssl_channel_credentials env bs of
             Inl e \<Rightarrow> uncaught e (called Call_ssl_channel_credentials p)
           | Inr creds \<Rightarrow> goto (At_secure_channel creds) (called Call_ssl_channel_credentials p))
      | At_secure_channel creds \<Rightarrow>
          (case secure_channel env SERVER_ADDRESS creds of
             Inl e \<Rightarrow> uncaught e (called (Call_secure_channel SERVER_ADDRESS) p)
           | Inr channel \<Rightarrow>
               goto (At_MessagesProxyStub channel) (called (Call_secure_channel SERVER_ADDRESS) p))
      | At_MessagesProxyStub channel \<Rightarrow>
          (case MessagesProxyStub env channel of
             Inl e \<Rightarrow> uncaught e (called Call_MessagesProxyStub p)
           | Inr stub \<Rightarrow> goto (At_SubscribeSocialSentiment stub) (called Call_MessagesProxyStub p))
      | At_SubscribeSocialSentiment stub \<Rightarrow>
          (case SubscribeSocialSentiment env stub of
             Inl e \<Rightarrow> uncaught e (called Call_SubscribeSocialSentiment p)
           | Inr candle_stream \<Rightarrow>
               goto (At_for_iter candle_stream) (called Call_SubscribeSocialSentiment p))
      | At_for_iter candle_stream \<Rightarrow>
          goto (At_for_next candle_stream) (called Call_iter p)
      | At_for_next candle_stream \<Rightarrow>
          (case candle_stream of
             Yield candle rest \<Rightarrow> goto (At_print candle rest) (called Call_next p)
           | StopIteration \<Rightarrow> goto (Exited 0) (called Call_next p)
           | Raise e \<Rightarrow> uncaught e (called Call_next p))
      | At_print candle rest \<Rightarrow>
          goto (At_for_next rest)
            (called (Call_print (print_text env candle))
               (p\<lparr>stdout := stdout p @ print_text env candle\<rparr>))
      | Exited status \<Rightarrow> p)"

fun run :: "('i, 'f, 'z) env \<Rightarrow> nat \<Rightarrow> ('i, 'f, 'z) process \<Rightarrow> ('i, 'f, 'z) process" where
  "run env 0 p = p"
| "run env (Suc n) p = run env n (step env p)"

definition exit_status :: "('i, 'f, 'z) process \<Rightarrow> nat option" where
  "exit_status p = (case control p of Exited status \<Rightarrow> Some status | _ \<Rightarrow> None)"

text \<open>
  Running the process to its exit. The stream may never end, and then neither does the
  loop: the result is \<open>None\<close>.
\<close>

partial_function (option) exec ::
  "('i, 'f, 'z) env \<Rightarrow> ('i, 'f, 'z) process \<Rightarrow> ('i, 'f, 'z) process option" where
  "exec env p = (if exit_status p \<noteq> None then Some p else exec env (step env p))"

declare exec.simps [code]

text \<open>A fresh process: nothing written, nothing called, about to run line 1.\<close>

definition start :: "(string \<rightharpoonup> file_entry) \<Rightarrow> (string \<rightharpoonup> string) \<Rightarrow> ('i, 'f, 'z) process" where
  "start fs vars =
     \<lparr>control = At_sys_path_append, stdout = [], stderr = [], exception = None,
      sys_path = [], files = fs, environ = vars, calls = []\<rparr>"

definition script ::
  "('i, 'f, 'z) env \<Rightarrow> (string \<rightharpoonup> file_entry) \<Rightarrow> (string \<rightharpoonup> string) \<Rightarrow> ('i, 'f, 'z) process option" where
  "script env fs vars = exec env (start fs vars)"

subsection \<open>The setup in one piece, and the calls of a run\<close>

text \<open>
  The stream that line 23 binds to \<^verbatim>\<open>candle_stream\<close>, or the first exception raised on
  the way there (lines 14 to 23 read as one expression).
\<close>

definition subscription ::
  "('i, 'f, 'z) env \<Rightarrow> (string \<rightharpoonup> file_entry) \<Rightarrow> error + ('i, 'f, 'z) candle_scheme candle_stream" where
  "subscription env fs =
     (case open_read fs PATH_TO_CERT_FILE of
        Inl e \<Rightarrow> Inl e
      | Inr bs \<Rightarrow>
     (case ssl_channel_credentials env bs of
        Inl e \<Rightarrow> Inl e
      | Inr creds \<Rightarrow>
     (case secure_channel env SERVER_ADDRESS creds of
        Inl e \<Rightarrow> Inl e
      | Inr channel \<Rightarrow>
     (case MessagesProxyStub env channel of
        Inl e \<Rightarrow> Inl e
      | Inr stub \<Rightarrow> SubscribeSocialSentiment env stub))))"

text \<open>
  The calls up to the loop when nothing fails, and the calls of the loop for a list of
  received messages.
\<close>

definition setup_calls :: "call list" where
  "setup_calls =
     [Call_open PATH_TO_CERT_FILE, Call_ssl_channel_credentials,
      Call_secure_channel SERVER_ADDRESS, Call_MessagesProxyStub,
      Call_SubscribeSocialSentiment, Call_iter]"

definition loop_calls :: "('i, 'f, 'z) env \<Rightarrow> ('i, 'f, 'z) candle_scheme list \<Rightarrow> call list" where
  "loop_calls env cs = concat (map (\<lambda>c. [Call_next, Call_print (print_text env c)]) cs)"


text \<open>
  The calls other than those of the loop, and how many of them lie behind each point of
  the script. At every point the calls made so far are the first ones of \<open>setup_calls\<close>.
\<close>

fun setup_part :: "call list \<Rightarrow> call list" where
  "setup_part [] = []"
| "setup_part (Call_next # cs) = setup_part cs"
| "setup_part (Call_print t # cs) = setup_part cs"
| "setup_part (c # cs) = c # setup_part cs"

fun stage :: "('i, 'f, 'z) control \<Rightarrow> nat option" where
  "stage At_sys_path_append = Some 0"
| "stage At_open_read = Some 0"
| "stage (At_ssl_channel_credentials bs) = Some 1"
| "stage (At_secure_channel creds) = Some 2"
| "stage (At_MessagesProxyStub channel) = Some 3"
| "stage (At_SubscribeSocialSentiment stub) = Some 4"
| "stage (At_for_iter candle_stream) = Some 5"
| "stage (At_for_next candle_stream) = Some 6"
| "stage (At_print candle rest) = Some 6"
| "stage (Exited status) = None"

definition calls_in_order :: "('i, 'f, 'z) process \<Rightarrow> bool" where
  "calls_in_order p =
     (case stage (control p) of
        Some j \<Rightarrow> setup_part (calls p) = take j setup_calls
      | None \<Rightarrow> setup_part (calls p) \<in> set (map (\<lambda>j. take j setup_calls) [0..<7]))"

subsection \<open>The state machine of the specification\<close>

text \<open>
  The specification names seven process states,
  \<^verbatim>\<open>Idle -> CredentialsLoaded -> ChannelOpen -> Subscribed -> Consuming -> {Completed | Failed}\<close>.
  These definitions follow its words and are compared with the machine above: the
  credentials are loaded once line 14 has returned, the channel is open once line 17 has
  returned (and stays so while the stub is made), the process is subscribed once line 23 has
  returned, and consuming once the loop pulls from the stream. A process that has exited
  with status 0 has completed, one that has exited with another status has failed.
\<close>

datatype spec_state =
  Idle | CredentialsLoaded | ChannelOpen | Subscribed | Consuming | Completed | Failed

fun spec_state_of :: "('i, 'f, 'z) control \<Rightarrow> spec_state" where
  "spec_state_of At_sys_path_append = Idle"
| "spec_state_of At_open_read = Idle"
| "spec_state_of (At_ssl_channel_credentials bs) = Idle"
| "spec_state_of (At_secure_channel creds) = CredentialsLoaded"
| "spec_state_of (At_MessagesProxyStub channel) = ChannelOpen"
| "spec_state_of (At_SubscribeSocialSentiment stub) = ChannelOpen"
| "spec_state_of (At_for_iter candle_stream) = Subscribed"
| "spec_state_of (At_for_next candle_stream) = Consuming"
| "spec_state_of (At_print candle rest) = Consuming"
| "spec_state_of (Exited 0) = Completed"
| "spec_state_of (Exited (Suc status)) = Failed"

text \<open>
  The arrows of the chain; an exception takes any state that is not final to \<open>Failed\<close>.
\<close>

fun spec_arrow :: "spec_state \<Rightarrow> spec_state \<Rightarrow> bool" where
  "spec_arrow Idle CredentialsLoaded = True"
| "spec_arrow CredentialsLoaded ChannelOpen = True"
| "spec_arrow ChannelOpen Subscribed = True"
| "spec_arrow Subscribed Consuming = True"
| "spec_arrow Consuming Completed = True"
| "spec_arrow Completed Failed = False"
| "spec_arrow Failed Failed = False"
| "spec_arrow s Failed = True"
| "spec_arrow s t = False"

text \<open>
  The position of a state in the chain.
\<close>

fun spec_rank :: "spec_state \<Rightarrow> nat" where
  "spec_rank Idle = 0"
| "spec_rank CredentialsLoaded = 1"
| "spec_rank ChannelOpen = 2"
| "spec_rank Subscribed = 3"
| "spec_rank Consuming = 4"
| "spec_rank Completed = 5"
| "spec_rank Failed = 5"

subsection \<open>The library as the specification describes it\<close>

text \<open>
  Modelled from the spec: the credential constructor \<^verbatim>\<open>grpc.ssl_channel_credentials\<close> belongs
  to the RPC library, which is not part of the repository. The specification says of it:
  loading fails "with a CredentialFormatError if the bytes are not a valid certificate", and
  "certificate bytes must be non-empty and valid". Which bytes are a valid certificate is a
  parameter.
\<close>

definition spec_ssl_channel_credentials :: "(bytes \<Rightarrow> bool) \<Rightarrow> bytes \<Rightarrow> error + creds" where
  "spec_ssl_channel_credentials valid bs =
     (if bs \<noteq> [] \<and> valid bs then Inr (ChannelCredentials bs) else Inl CredentialFormatError)"

text \<open>
  Modelled from the spec: the channel constructor \<^verbatim>\<open>grpc.secure_channel\<close> belongs to the RPC
  library, which is not part of the repository. The specification says of it: opening
  "fails with a ConnectionError if the TLS handshake or DNS resolution fails". Which
  addresses can be reached is a parameter.
\<close>

definition spec_secure_channel :: "(string \<Rightarrow> bool) \<Rightarrow> string \<Rightarrow> creds \<Rightarrow> error + channel" where
  "spec_secure_channel reachable address credentials =
     (if reachable address then Inr (Channel address credentials) else Inl ConnectionError)"

subsection \<open>Example inputs\<close>

text \<open>
  The scenario of the specification: a certificate of 200 bytes, and a server that sends
  \<^verbatim>\<open>{id: "AAPL", sentiment_avg: 0.42}\<close> and \<^verbatim>\<open>{id: "MSFT", sentiment_avg: -0.15}\<close>. A
  sentiment average is held as its decimal text here, so \<^verbatim>\<open>str\<close> is the identity on it.
  The second list has the same two messages with one more field.
\<close>

definition demo_candles :: "(string, string) candle list" where
  "demo_candles =
     [\<lparr>id_field = ''AAPL'', sentiment_avg = ''0.42''\<rparr>,
      \<lparr>id_field = ''MSFT'', sentiment_avg = ''-0.15''\<rparr>]"

definition demo_candles_more :: "(string, string, nat) candle_scheme list" where
  "demo_candles_more =
     [\<lparr>id_field = ''AAPL'', sentiment_avg = ''0.42'', \<dots> = 7\<rparr>,
      \<lparr>id_field = ''MSFT'', sentiment_avg = ''-0.15'', \<dots> = 9\<rparr>]"

definition demo_files :: "string \<rightharpoonup> file_entry" where
  "demo_files = [PATH_TO_CERT_FILE \<mapsto> Contents (replicate 200 0x2D)]"

text \<open>
  A library in which every call succeeds and the server sends the given stream.
\<close>

definition demo_env ::
  "('i, 'f, 'z) candle_scheme candle_stream \<Rightarrow> ('i \<Rightarrow> string) \<Rightarrow> ('f \<Rightarrow> string) \<Rightarrow> ('i, 'f, 'z) env" where
  "demo_env served str_i str_f =
     \<lparr>ssl_channel_credentials = (\<lambda>bs. Inr (ChannelCredentials bs)),
      secure_channel = (\<lambda>address credentials. Inr (Channel address credentials)),
      MessagesProxyStub = (\<lambda>channel. Inr (Stub channel)),
      SubscribeSocialSentiment = (\<lambda>stub. Inr served),
      str_id = str_i,
      str_sentiment_avg = str_f\<rparr>"

subsection \<open>The interpreter around the script\<close>

text \<open>
  The script does not run alone. After line 1 and before \<^verbatim>\<open>main\<close>, the interpreter
  executes the imports of lines 3 to 6, which read module files and may write their cached
  bytecode; \<^verbatim>\<open>print\<close> writes to a device that can refuse; the library may touch the file
  system inside its calls; and when the process ends the interpreter flushes standard
  output, and a failure there makes the exit status 120. The files the interpreter reads
  and writes are recorded.
\<close>

datatype access = Read_file string | Write_file string

text \<open>
  What is outside the script's text enters as parameters:
  \<^item> \<open>default_path\<close>: \<^verbatim>\<open>sys.path\<close> when the script starts;
  \<^item> \<open>module_file\<close>, \<open>cache_file\<close>: the names, within a directory of \<^verbatim>\<open>sys.path\<close>, of a
    module's source and of its cached bytecode (for \<^verbatim>\<open>types_pb2_grpc\<close> under CPython 3.11,
    \<^verbatim>\<open>types_pb2_grpc.py\<close> and \<^verbatim>\<open>__pycache__/types_pb2_grpc.cpython-311.pyc\<close>);
  \<^item> \<open>bytecode\<close>: the compiler;
  \<^item> \<open>writes_cache\<close>: whether bytecode is cached in a directory (it is not when the
    directory cannot be written, or when caching is switched off);
  \<^item> \<open>write_fails\<close>: whether \<^verbatim>\<open>print\<close> raises, given what standard output has taken so
    far and the text (a reader that has gone away, a full device, a character the console's
    encoding lacks);
  \<^item> \<open>flush_fails\<close>: whether flushing standard output fails when the process ends;
  \<^item> \<open>library_files\<close>: what a call into the library does to the file system.
\<close>

record runtime =
  default_path :: "string list"
  module_file :: "string \<Rightarrow> string"
  cache_file :: "string \<Rightarrow> string"
  bytecode :: "bytes \<Rightarrow> bytes"
  writes_cache :: "string \<Rightarrow> bool"
  write_fails :: "string \<Rightarrow> string \<Rightarrow> bool"
  flush_fails :: "string \<Rightarrow> bool"
  library_files :: "call \<Rightarrow> (string \<rightharpoonup> file_entry) \<Rightarrow> (string \<rightharpoonup> file_entry)"

text \<open>
  The modules of lines 3, 5 and 6.
\<close>

definition imported_modules :: "string list" where
  "imported_modules = [''grpc'', ''types_pb2_grpc'', ''google.protobuf.empty_pb2'']"

text \<open>
  Importing a module. The directories of \<^verbatim>\<open>sys.path\<close> are searched in order for the
  module's source. Where it is found, its cached bytecode is read if there is one (it
  is taken to be up to date); otherwise the source is read and, where bytecode is cached, the cache is written. A
  module that is on no directory of the path, or whose source cannot be read, makes the
  import raise (\<open>None\<close>). The modules a module imports in turn are not followed.
\<close>

definition import_module ::
  "runtime \<Rightarrow> string list \<Rightarrow> (string \<rightharpoonup> file_entry) \<Rightarrow> string
     \<Rightarrow> ((string \<rightharpoonup> file_entry) \<times> access list) option" where
  "import_module rt path fs m =
     (case find (\<lambda>d. fs (d @ module_file rt m) \<noteq> None) path of
        None \<Rightarrow> None
      | Some d \<Rightarrow>
          (case fs (d @ cache_file rt m) of
             Some (Contents code) \<Rightarrow> Some (fs, [Read_file (d @ cache_file rt m)])
           | _ \<Rightarrow>
               (case fs (d @ module_file rt m) of
                  Some (Contents source) \<Rightarrow>
                    if writes_cache rt d
                    then Some (fs(d @ cache_file rt m \<mapsto> Contents (bytecode rt source)),
                               [Read_file (d @ module_file rt m), Write_file (d @ cache_file rt m)])
                    else Some (fs, [Read_file (d @ module_file rt m)])
                | _ \<Rightarrow> None)))"

fun import_all ::
  "runtime \<Rightarrow> string list \<Rightarrow> (string \<rightharpoonup> file_entry) \<Rightarrow> string list
     \<Rightarrow> ((string \<rightharpoonup> file_entry) \<times> access list) option" where
  "import_all rt path fs [] = Some (fs, [])"
| "import_all rt path fs (m # ms) =
     (case import_module rt path fs m of
        None \<Rightarrow> None
      | Some (fs1, acc1) \<Rightarrow>
          (case import_all rt path fs1 ms of
             None \<Rightarrow> None
           | Some (fs2, acc2) \<Rightarrow> Some (fs2, acc1 @ acc2)))"

text \<open>
  The process with the interpreter around it: the process of the script, the modules still
  to import, the files read and written for them, an exception raised outside the
  script's calls, and the status the process has ended with.
\<close>

datatype io_error = ImportFailure string | PrintFailure

record ('i, 'f, 'z) interp =
  proc :: "('i, 'f, 'z) process"
  pending :: "string list"
  accesses :: "access list"
  uncaught_io :: "io_error option"
  ended :: "nat option"

definition import_traceback :: "string \<Rightarrow> string" where
  "import_traceback m =
     ''Traceback (most recent call last):'' @ [newline] @
     ''ModuleNotFoundError: No module named '' @ m @ [newline]"

definition print_traceback :: string where
  "print_traceback =
     ''Traceback (most recent call last):'' @ [newline] @ ''OSError'' @ [newline]"

text \<open>
  What the interpreter writes when the last flush of standard output fails.
\<close>

definition flush_message :: string where
  "flush_message = ''Exception ignored on flushing sys.stdout'' @ [newline]"

text \<open>
  A step of the script, and the mark a call into the library leaves on the files.
\<close>

definition advance :: "('i, 'f, 'z) env \<Rightarrow> ('i, 'f, 'z) interp \<Rightarrow> ('i, 'f, 'z) interp" where
  "advance env q = q\<lparr>proc := step env (proc q)\<rparr>"

definition in_library :: "runtime \<Rightarrow> call \<Rightarrow> ('i, 'f, 'z) interp \<Rightarrow> ('i, 'f, 'z) interp" where
  "in_library rt c q = q\<lparr>proc := (proc q)\<lparr>files := library_files rt c (files (proc q))\<rparr>\<rparr>"

text \<open>
  One step of the whole process. Line 1 runs first; then, still before line 14, one
  module is imported per step; then the script runs as in \<open>step\<close>, except that
  \<^verbatim>\<open>print\<close> raises where the device refuses the text; and once the script has exited, with
  or without a traceback, standard output is flushed: the process ends with the status of
  the script, or with 120 when the flush fails.
\<close>

definition step_io ::
  "runtime \<Rightarrow> ('i, 'f, 'z) env \<Rightarrow> ('i, 'f, 'z) interp \<Rightarrow> ('i, 'f, 'z) interp" where
  "step_io rt env q =
     (case ended q of
        Some status \<Rightarrow> q
      | None \<Rightarrow>
     (case control (proc q) of
        At_sys_path_append \<Rightarrow> advance env q
      | At_open_read \<Rightarrow>
          (case pending q of
             m # ms \<Rightarrow>
               (case import_module rt (sys_path (proc q)) (files (proc q)) m of
                  None \<Rightarrow>
                    q\<lparr>proc := (proc q)\<lparr>control := Exited 1,
                                        stderr := stderr (proc q) @ import_traceback m\<rparr>,
                      uncaught_io := Some (ImportFailure m)\<rparr>
                | Some (fs, acc) \<Rightarrow>
                    q\<lparr>proc := (proc q)\<lparr>files := fs\<rparr>, pending := ms,
                      accesses := accesses q @ acc\<rparr>)
           | [] \<Rightarrow> advance env q)
      | At_ssl_channel_credentials bs \<Rightarrow>
          in_library rt Call_ssl_channel_credentials (advance env q)
      | At_secure_channel creds \<Rightarrow>
          in_library rt (Call_secure_channel SERVER_ADDRESS) (advance env q)
      | At_MessagesProxyStub channel \<Rightarrow>
          in_library rt Call_MessagesProxyStub (advance env q)
      | At_SubscribeSocialSentiment stub \<Rightarrow>
          in_library rt Call_SubscribeSocialSentiment (advance env q)
      | At_for_iter candle_stream \<Rightarrow> advance env q
      | At_for_next candle_stream \<Rightarrow> in_library rt Call_next (advance env q)
      | At_print candle rest \<Rightarrow>
          if write_fails rt (stdout (proc q)) (print_text env candle)
          then q\<lparr>proc := (called (Call_print (print_text env candle)) (proc q))
                          \<lparr>control := Exited 1, stderr := stderr (proc q) @ print_traceback\<rparr>,
                 uncaught_io := Some PrintFailure\<rparr>
          else advance env q
      | Exited status \<Rightarrow>
          if flush_fails rt (stdout (proc q))
          then q\<lparr>proc := (proc q)\<lparr>stderr := stderr (proc q) @ flush_message\<rparr>,
                 ended := Some 120\<rparr>
          else q\<lparr>ended := Some status\<rparr>))"

fun run_io ::
  "runtime \<Rightarrow> ('i, 'f, 'z) env \<Rightarrow> nat \<Rightarrow> ('i, 'f, 'z) interp \<Rightarrow> ('i, 'f, 'z) interp" where
  "run_io rt env 0 q = q"
| "run_io rt env (Suc n) q = run_io rt env n (step_io rt env q)"

partial_function (option) exec_io ::
  "runtime \<Rightarrow> ('i, 'f, 'z) env \<Rightarrow> ('i, 'f, 'z) interp \<Rightarrow> ('i, 'f, 'z) interp option" where
  "exec_io rt env q = (if ended q \<noteq> None then Some q else exec_io rt env (step_io rt env q))"

declare exec_io.simps [code]

text \<open>
  The process at its start, and the whole run. \<open>default_path\<close> is what \<^verbatim>\<open>sys.path\<close>
  holds before line 1.
\<close>

definition boot ::
  "runtime \<Rightarrow> (string \<rightharpoonup> file_entry) \<Rightarrow> (string \<rightharpoonup> string) \<Rightarrow> ('i, 'f, 'z) interp" where
  "boot rt fs vars =
     \<lparr>proc = (start fs vars)\<lparr>sys_path := default_path rt\<rparr>, pending = imported_modules,
      accesses = [], uncaught_io = None, ended = None\<rparr>"

definition python ::
  "runtime \<Rightarrow> ('i, 'f, 'z) env \<Rightarrow> (string \<rightharpoonup> file_entry) \<Rightarrow> (string \<rightharpoonup> string)
     \<Rightarrow> ('i, 'f, 'z) interp option" where
  "python rt env fs vars = exec_io rt env (boot rt fs vars)"


text \<open>
  Standard output takes the texts one after the other; what it has taken when the
  first is refused; and the status a run ends with once its stream has ended.
\<close>

fun accepts :: "runtime \<Rightarrow> string \<Rightarrow> string list \<Rightarrow> bool" where
  "accepts rt written [] = True"
| "accepts rt written (t # ts) = (\<not> write_fails rt written t \<and> accepts rt (written @ t) ts)"

fun emit :: "runtime \<Rightarrow> string \<Rightarrow> string list \<Rightarrow> string" where
  "emit rt written [] = written"
| "emit rt written (t # ts) =
     (if write_fails rt written t then written else emit rt (written @ t) ts)"


text \<open>
  The file system after the calls of a list, and the accesses that load a module of
  lines 3 to 6 from a directory of \<^verbatim>\<open>sys.path\<close>.
\<close>

fun library_trace ::
  "runtime \<Rightarrow> call list \<Rightarrow> (string \<rightharpoonup> file_entry) \<Rightarrow> (string \<rightharpoonup> file_entry)" where
  "library_trace rt [] fs = fs"
| "library_trace rt (Call_open path # cs) fs = library_trace rt cs fs"
| "library_trace rt (Call_iter # cs) fs = library_trace rt cs fs"
| "library_trace rt (Call_print t # cs) fs = library_trace rt cs fs"
| "library_trace rt (c # cs) fs = library_trace rt cs (library_files rt c fs)"



subsection \<open>Example inputs for the interpreter\<close>















section \<open>The machine at work\<close>

subsection \<open>Running the machine\<close>

lemmas step_defs = step_def goto_def called_def uncaught_def

lemma run_add: "run env (m + n) p = run env n (run env m p)"
  by (induction m arbitrary: p) simp_all

lemma step_exited: "exit_status p \<noteq> None \<Longrightarrow> step env p = p"
  by (auto simp: exit_status_def step_def split: control.splits)

lemma run_exited: "exit_status p \<noteq> None \<Longrightarrow> run env n p = p"
  by (induction n) (simp_all add: step_exited)

text \<open>
  \<open>exec\<close> returns the first exited process that \<open>run\<close> reaches, and nothing else.
\<close>

lemma exec_run: "exit_status (run env n p) \<noteq> None \<Longrightarrow> exec env p = Some (run env n p)"
proof (induction n arbitrary: p)
  case 0
  then show ?case by (subst exec.simps) simp
next
  case (Suc n)
  show ?case
  proof (cases "exit_status p = None")
    case True
    with Suc show ?thesis by (subst exec.simps) simp
  next
    case False
    then have "run env (Suc n) p = p" by (rule run_exited)
    with False show ?thesis by (subst exec.simps) simp
  qed
qed

lemma exec_some:
  assumes "exec env p = Some q"
  shows "\<exists>n. run env n p = q \<and> exit_status q \<noteq> None"
  using assms
proof (induction rule: exec.raw_induct[rotated 1, consumes 1])
  case (1 exec' env p q)
  show ?case
  proof (cases "exit_status p = None")
    case True
    with 1(2) have "exec' env (step env p) = Some q" by simp
    from 1(1)[OF this] obtain n where n: "run env n (step env p) = q \<and> exit_status q \<noteq> None"
      by blast
    then have "run env (Suc n) p = q \<and> exit_status q \<noteq> None" by simp
    then show ?thesis by blast
  next
    case False
    with 1(2) have "q = p" by simp
    with False have "run env 0 p = q \<and> exit_status q \<noteq> None" by simp
    then show ?thesis by blast
  qed
qed

subsection \<open>The setup and the loop\<close>

lemma subscription_Inr:
  "subscription env fs = Inr s \<longleftrightarrow>
     (\<exists>bs cr ch sb. open_read fs PATH_TO_CERT_FILE = Inr bs \<and> ssl_channel_credentials env bs = Inr cr \<and>
        secure_channel env SERVER_ADDRESS cr = Inr ch \<and> MessagesProxyStub env ch = Inr sb \<and>
        SubscribeSocialSentiment env sb = Inr s)"
  by (auto simp: subscription_def split: sum.splits)

lemma run_setup:
  assumes "subscription env fs = Inr s"
  shows "run env 7 (start fs vars) =
     \<lparr>control = At_for_next s, stdout = [], stderr = [], exception = None,
      sys_path = [''../../''], files = fs, environ = vars, calls = setup_calls\<rparr>"
proof -
  from assms obtain bs cr ch sb where
    "open_read fs PATH_TO_CERT_FILE = Inr bs" "ssl_channel_credentials env bs = Inr cr"
    "secure_channel env SERVER_ADDRESS cr = Inr ch" "MessagesProxyStub env ch = Inr sb"
    "SubscribeSocialSentiment env sb = Inr s"
    unfolding subscription_Inr by blast
  then show ?thesis
    by (simp add: numeral_eq_Suc start_def step_defs setup_calls_def)
qed

lemma run_loop:
  assumes "control p = At_for_next (feed cs rest)"
  shows "run env (2 * length cs) p =
     p\<lparr>control := At_for_next rest,
       stdout := stdout p @ concat (map (print_text env) cs),
       calls := calls p @ loop_calls env cs\<rparr>"
  using assms
proof (induction cs arbitrary: p)
  case Nil
  then show ?case by (simp add: loop_calls_def)
next
  case (Cons c cs)
  let ?q = "p\<lparr>control := At_for_next (feed cs rest), stdout := stdout p @ print_text env c,
              calls := calls p @ [Call_next, Call_print (print_text env c)]\<rparr>"
  from Cons.prems have two: "step env (step env p) = ?q"
    by (simp add: step_defs)
  have "control ?q = At_for_next (feed cs rest)" by simp
  from Cons.IH[OF this] two show ?case by (simp add: loop_calls_def)
qed




text \<open>
  The whole run, for each way it can end.
\<close>

lemma script_finite_closed:
  assumes "subscription env fs = Inr (feed cs StopIteration)"
  shows "script env fs vars = Some
     \<lparr>control = Exited 0, stdout = concat (map (print_text env) cs), stderr = [], exception = None,
      sys_path = [''../../''], files = fs, environ = vars,
      calls = setup_calls @ loop_calls env cs @ [Call_next]\<rparr>"
proof -
  let ?p = "run env 7 (start fs vars)"
  have p: "?p = \<lparr>control = At_for_next (feed cs StopIteration), stdout = [], stderr = [], exception = None,
      sys_path = [''../../''], files = fs, environ = vars, calls = setup_calls\<rparr>"
    using assms by (rule run_setup)
  then have "control ?p = At_for_next (feed cs StopIteration)" by simp
  from run_loop[OF this, of env] p
  have "run env (2 * length cs) ?p =
     \<lparr>control = At_for_next StopIteration, stdout = concat (map (print_text env) cs), stderr = [], exception = None,
      sys_path = [''../../''], files = fs, environ = vars, calls = setup_calls @ loop_calls env cs\<rparr>"
    by simp
  then have "run env 1 (run env (2 * length cs) ?p) =
     \<lparr>control = Exited 0, stdout = concat (map (print_text env) cs), stderr = [], exception = None,
      sys_path = [''../../''], files = fs, environ = vars, calls = setup_calls @ loop_calls env cs @ [Call_next]\<rparr>"
    by (simp add: step_defs)
  then have r: "run env (7 + 2 * length cs + 1) (start fs vars) =
     \<lparr>control = Exited 0, stdout = concat (map (print_text env) cs), stderr = [], exception = None,
      sys_path = [''../../''], files = fs, environ = vars, calls = setup_calls @ loop_calls env cs @ [Call_next]\<rparr>"
    by (simp only: run_add)
  then have "exit_status (run env (7 + 2 * length cs + 1) (start fs vars)) \<noteq> None"
    by (simp add: exit_status_def)
  from exec_run[OF this] r show ?thesis by (simp add: script_def)
qed

lemma script_finite_raise:
  assumes "subscription env fs = Inr (feed cs (Raise e))"
  shows "script env fs vars = Some
     \<lparr>control = Exited 1, stdout = concat (map (print_text env) cs), stderr = traceback e,
      exception = Some e, sys_path = [''../../''], files = fs, environ = vars,
      calls = setup_calls @ loop_calls env cs @ [Call_next]\<rparr>"
proof -
  let ?p = "run env 7 (start fs vars)"
  have p: "?p = \<lparr>control = At_for_next (feed cs (Raise e)), stdout = [], stderr = [], exception = None,
      sys_path = [''../../''], files = fs, environ = vars, calls = setup_calls\<rparr>"
    using assms by (rule run_setup)
  then have "control ?p = At_for_next (feed cs (Raise e))" by simp
  from run_loop[OF this, of env] p
  have "run env (2 * length cs) ?p =
     \<lparr>control = At_for_next (Raise e), stdout = concat (map (print_text env) cs), stderr = [], exception = None,
      sys_path = [''../../''], files = fs, environ = vars, calls = setup_calls @ loop_calls env cs\<rparr>"
    by simp
  then have "run env 1 (run env (2 * length cs) ?p) =
     \<lparr>control = Exited 1, stdout = concat (map (print_text env) cs), stderr = traceback e, exception = Some e,
      sys_path = [''../../''], files = fs, environ = vars, calls = setup_calls @ loop_calls env cs @ [Call_next]\<rparr>"
    by (simp add: step_defs)
  then have r: "run env (7 + 2 * length cs + 1) (start fs vars) =
     \<lparr>control = Exited 1, stdout = concat (map (print_text env) cs), stderr = traceback e, exception = Some e,
      sys_path = [''../../''], files = fs, environ = vars, calls = setup_calls @ loop_calls env cs @ [Call_next]\<rparr>"
    by (simp only: run_add)
  then have "exit_status (run env (7 + 2 * length cs + 1) (start fs vars)) \<noteq> None"
    by (simp add: exit_status_def)
  from exec_run[OF this] r show ?thesis by (simp add: script_def)
qed

lemma script_finite_stdout:
  assumes "subscription env fs = Inr (feed cs t)" and "t = StopIteration \<or> t = Raise e"
  shows "\<exists>p. script env fs vars = Some p \<and> stdout p = concat (map (print_text env) cs)"
  using assms script_finite_closed[of env fs cs vars] script_finite_raise[of env fs cs e vars]
  by auto

lemma print_text_agree:
  assumes "length cs1 = length cs2"
    and "\<forall>k<length cs1. id_field (cs1 ! k) = id_field (cs2 ! k)
           \<and> sentiment_avg (cs1 ! k) = sentiment_avg (cs2 ! k)"
    and "str_id env1 = str_id env2" and "str_sentiment_avg env1 = str_sentiment_avg env2"
  shows "map (print_text env1) cs1 = map (print_text env2) cs2"
  using assms by (intro nth_equalityI) (simp_all add: print_text_def)

lemma demo_subscription:
  "subscription (demo_env served str_i str_f) demo_files = Inr served"
  by (simp add: subscription_def demo_env_def demo_files_def open_read_def)

subsection \<open>The order of the calls\<close>

lemma setup_part_append: "setup_part (xs @ ys) = setup_part xs @ setup_part ys"
  by (induction xs rule: setup_part.induct) simp_all

lemma upt_7: "[0..<7] = [0, 1, 2, 3, 4, 5, 6]"
  by (simp add: upt_rec)

lemma calls_in_order_step: "calls_in_order p \<Longrightarrow> calls_in_order (step env p)"
  unfolding calls_in_order_def step_def
  by (cases "control p")
     (auto simp: goto_def called_def uncaught_def setup_part_append setup_calls_def upt_7
           split: sum.splits candle_stream.splits)

lemma calls_in_order_run: "calls_in_order p \<Longrightarrow> calls_in_order (run env n p)"
  by (induction n arbitrary: p) (simp_all add: calls_in_order_step)

lemma calls_in_order_start: "calls_in_order (start fs vars)"
  by (simp add: calls_in_order_def start_def)

lemma count_setup_part:
  "c \<noteq> Call_next \<Longrightarrow> \<forall>t. c \<noteq> Call_print t \<Longrightarrow> count_list (setup_part xs) c = count_list xs c"
  by (induction xs rule: setup_part.induct) auto

lemma count_distinct: "distinct xs \<Longrightarrow> count_list xs c \<le> 1"
  by (induction xs) (auto simp: count_list_0_iff)

lemma calls_in_order_once:
  assumes "calls_in_order p" and "c \<noteq> Call_next" and "\<forall>t. c \<noteq> Call_print t"
  shows "count_list (calls p) c \<le> 1"
proof -
  have "distinct setup_calls" by (simp add: setup_calls_def)
  then have d: "distinct (take j setup_calls)" for j by simp
  from assms(1) obtain j where "setup_part (calls p) = take j setup_calls"
    unfolding calls_in_order_def by (auto split: option.splits)
  with d[of j] have "distinct (setup_part (calls p))" by simp
  then have "count_list (setup_part (calls p)) c \<le> 1" by (rule count_distinct)
  with assms(2,3) show ?thesis by (simp add: count_setup_part)
qed

lemma run_calls_once:
  assumes "c \<noteq> Call_next" and "\<forall>t. c \<noteq> Call_print t"
  shows "count_list (calls (run env n (start fs vars))) c \<le> 1"
  using calls_in_order_once[OF calls_in_order_run[OF calls_in_order_start] assms] .

subsection \<open>Forward steps\<close>

lemma step_forward:
  "spec_state_of (control (step env p)) = spec_state_of (control p)
   \<or> spec_arrow (spec_state_of (control p)) (spec_state_of (control (step env p)))"
  unfolding step_def
  by (cases "control p")
     (auto simp: goto_def called_def uncaught_def split: sum.splits candle_stream.splits)

lemma spec_arrow_rank: "spec_arrow s t \<Longrightarrow> spec_rank s < spec_rank t"
  by (cases s; cases t) simp_all

lemma step_rank:
  "spec_rank (spec_state_of (control p)) \<le> spec_rank (spec_state_of (control (step env p)))"
  using step_forward[of env p] spec_arrow_rank by fastforce

lemma run_rank:
  "spec_rank (spec_state_of (control p)) \<le> spec_rank (spec_state_of (control (run env m p)))"
proof (induction m arbitrary: p)
  case 0
  show ?case by simp
next
  case (Suc m)
  from step_rank[of p env] Suc[of "step env p"] show ?case by simp
qed

lemma terminal_exited:
  "spec_state_of (control p) \<in> {Completed, Failed} \<longleftrightarrow> exit_status p \<noteq> None"
  by (cases "control p" rule: spec_state_of.cases) (simp_all add: exit_status_def)

subsection \<open>The files the script opens\<close>


section \<open>The interpreter at work\<close>

subsection \<open>Running the process\<close>

lemmas step_io_defs = step_io_def advance_def in_library_def

lemma run_io_add: "run_io rt env (m + n) q = run_io rt env n (run_io rt env m q)"
  by (induction m arbitrary: q) simp_all

lemma step_io_ended: "ended q \<noteq> None \<Longrightarrow> step_io rt env q = q"
  by (auto simp: step_io_def)

lemma run_io_ended: "ended q \<noteq> None \<Longrightarrow> run_io rt env n q = q"
  by (induction n) (simp_all add: step_io_ended)

lemma exec_io_run:
  "ended (run_io rt env n q) \<noteq> None \<Longrightarrow> exec_io rt env q = Some (run_io rt env n q)"
proof (induction n arbitrary: q)
  case 0
  then show ?case by (subst exec_io.simps) simp
next
  case (Suc n)
  show ?case
  proof (cases "ended q = None")
    case True
    with Suc show ?thesis by (subst exec_io.simps) simp
  next
    case False
    then have "run_io rt env (Suc n) q = q" by (rule run_io_ended)
    with False show ?thesis by (subst exec_io.simps) simp
  qed
qed



lemma python_ends:
  assumes "ended (run_io rt env n (boot rt fs vars)) \<noteq> None"
  shows "python rt env fs vars = Some (run_io rt env n (boot rt fs vars))"
  using exec_io_run[OF assms] by (simp add: python_def)

lemma run_io_pending:
  assumes "control (proc q) = At_open_read" and "ended q = None" and "pending q = ms"
    and "import_all rt (sys_path (proc q)) (files (proc q)) ms = Some (fs', acc)"
  shows "run_io rt env (length ms) q =
     q\<lparr>proc := (proc q)\<lparr>files := fs'\<rparr>, pending := [], accesses := accesses q @ acc\<rparr>"
  using assms
proof (induction ms arbitrary: q acc)
  case Nil
  then show ?case by simp
next
  case (Cons m ms)
  from Cons.prems(4) obtain fs1 acc1 acc2 where
    one: "import_module rt (sys_path (proc q)) (files (proc q)) m = Some (fs1, acc1)"
    and rest: "import_all rt (sys_path (proc q)) fs1 ms = Some (fs', acc2)"
    and acc: "acc = acc1 @ acc2"
    by (auto split: option.splits)
  let ?q1 = "q\<lparr>proc := (proc q)\<lparr>files := fs1\<rparr>, pending := ms, accesses := accesses q @ acc1\<rparr>"
  from Cons.prems(1-3) one have s: "step_io rt env q = ?q1"
    by (simp add: step_io_def)
  have "run_io rt env (length ms) ?q1 =
     ?q1\<lparr>proc := (proc ?q1)\<lparr>files := fs'\<rparr>, pending := [], accesses := accesses ?q1 @ acc2\<rparr>"
    using Cons.prems(1,2) rest by (intro Cons.IH) simp_all
  with s acc show ?case by simp
qed

lemma boot_imports:
  assumes "import_all rt (default_path rt @ [''../../'']) fs imported_modules = Some (fs', acc)"
  shows "run_io rt env 4 (boot rt fs vars) =
     \<lparr>proc = \<lparr>control = At_open_read, stdout = [], stderr = [], exception = None,
              sys_path = default_path rt @ [''../../''], files = fs', environ = vars, calls = []\<rparr>,
      pending = [], accesses = acc, uncaught_io = None, ended = None\<rparr>"
proof -
  let ?q = "\<lparr>proc = \<lparr>control = At_open_read, stdout = [], stderr = [], exception = None,
              sys_path = default_path rt @ [''../../''], files = fs, environ = vars, calls = []\<rparr>,
      pending = imported_modules, accesses = [], uncaught_io = None, ended = None\<rparr>
      :: ('a, 'b, 'c) interp"
  have one: "run_io rt env 1 (boot rt fs vars) = ?q"
    by (simp add: boot_def start_def step_io_defs step_defs)
  have "run_io rt env (length imported_modules) ?q =
     ?q\<lparr>proc := (proc ?q)\<lparr>files := fs'\<rparr>, pending := [], accesses := accesses ?q @ acc\<rparr>"
    using assms by (intro run_io_pending) simp_all
  then have "run_io rt env 3 ?q =
     \<lparr>proc = \<lparr>control = At_open_read, stdout = [], stderr = [], exception = None,
              sys_path = default_path rt @ [''../../''], files = fs', environ = vars, calls = []\<rparr>,
      pending = [], accesses = acc, uncaught_io = None, ended = None\<rparr>"
    by (simp add: imported_modules_def numeral_eq_Suc)
  with one run_io_add[of rt env 1 3 "boot rt fs vars"] show ?thesis by simp
qed

lemma library_trace_append:
  "library_trace rt (xs @ ys) fs = library_trace rt ys (library_trace rt xs fs)"
  by (induction rt xs fs rule: library_trace.induct) simp_all

lemma run_io_setup:
  assumes "control (proc q) = At_open_read" and "ended q = None" and "pending q = []"
    and "subscription env (files (proc q)) = Inr s"
  shows "run_io rt env 6 q =
     q\<lparr>proc := (proc q)\<lparr>control := At_for_next s, calls := calls (proc q) @ setup_calls,
                         files := library_trace rt setup_calls (files (proc q))\<rparr>\<rparr>"
proof -
  from assms(4) obtain bs cr ch sb where
    "open_read (files (proc q)) PATH_TO_CERT_FILE = Inr bs" "ssl_channel_credentials env bs = Inr cr"
    "secure_channel env SERVER_ADDRESS cr = Inr ch" "MessagesProxyStub env ch = Inr sb"
    "SubscribeSocialSentiment env sb = Inr s"
    unfolding subscription_Inr by blast
  with assms(1-3) show ?thesis
    by (simp add: numeral_eq_Suc step_io_defs step_defs setup_calls_def)
qed

lemma run_io_loop:
  assumes "control (proc q) = At_for_next (feed cs rest)" and "ended q = None"
    and "accepts rt (stdout (proc q)) (map (print_text env) cs)"
  shows "run_io rt env (2 * length cs) q =
     q\<lparr>proc := (proc q)\<lparr>control := At_for_next rest,
                         stdout := stdout (proc q) @ concat (map (print_text env) cs),
                         calls := calls (proc q) @ loop_calls env cs,
                         files := library_trace rt (loop_calls env cs) (files (proc q))\<rparr>\<rparr>"
  using assms
proof (induction cs arbitrary: q)
  case Nil
  then show ?case by (simp add: loop_calls_def)
next
  case (Cons c cs)
  let ?q2 = "q\<lparr>proc := (proc q)\<lparr>control := At_for_next (feed cs rest),
                stdout := stdout (proc q) @ print_text env c,
                calls := calls (proc q) @ [Call_next, Call_print (print_text env c)],
                files := library_files rt Call_next (files (proc q))\<rparr>\<rparr>"
  from Cons.prems have two: "step_io rt env (step_io rt env q) = ?q2"
    by (simp add: step_io_defs step_defs)
  have "run_io rt env (2 * length cs) ?q2 =
     ?q2\<lparr>proc := (proc ?q2)\<lparr>control := At_for_next rest,
                         stdout := stdout (proc ?q2) @ concat (map (print_text env) cs),
                         calls := calls (proc ?q2) @ loop_calls env cs,
                         files := library_trace rt (loop_calls env cs) (files (proc ?q2))\<rparr>\<rparr>"
    using Cons.prems by (intro Cons.IH) simp_all
  with two show ?case by (simp add: loop_calls_def)
qed

lemma emit_accepts: "accepts rt written ts \<Longrightarrow> emit rt written ts = written @ concat ts"
  by (induction ts arbitrary: written) simp_all




subsection \<open>The whole run\<close>

text \<open>
  A stream that is closed after finitely many messages, on a console that takes them.
\<close>

lemma python_closed:
  assumes "import_all rt (default_path rt @ [''../../'']) fs imported_modules = Some (fs', acc)"
    and "subscription env fs' = Inr (feed cs StopIteration)"
    and "accepts rt [] (map (print_text env) cs)"
    and "\<not> flush_fails rt (concat (map (print_text env) cs))"
  shows "python rt env fs vars = Some
     \<lparr>proc = \<lparr>control = Exited 0, stdout = concat (map (print_text env) cs), stderr = [],
              exception = None, sys_path = default_path rt @ [''../../''],
              files = library_trace rt (setup_calls @ loop_calls env cs @ [Call_next]) fs',
              environ = vars, calls = setup_calls @ loop_calls env cs @ [Call_next]\<rparr>,
      pending = [], accesses = acc, uncaught_io = None, ended = Some 0\<rparr>"
proof -
  define q4 where "q4 = run_io rt env 4 (boot rt fs vars)"
  have q4: "q4 =
     \<lparr>proc = \<lparr>control = At_open_read, stdout = [], stderr = [], exception = None,
              sys_path = default_path rt @ [''../../''], files = fs', environ = vars, calls = []\<rparr>,
      pending = [], accesses = acc, uncaught_io = None, ended = None\<rparr>"
    unfolding q4_def using assms(1) by (rule boot_imports)
  define q10 where "q10 = run_io rt env 6 q4"
  have "q10 =
     q4\<lparr>proc := (proc q4)\<lparr>control := At_for_next (feed cs StopIteration),
                         calls := calls (proc q4) @ setup_calls,
                         files := library_trace rt setup_calls (files (proc q4))\<rparr>\<rparr>"
    unfolding q10_def using assms(2) by (intro run_io_setup) (simp_all add: q4)
  then have q10: "q10 =
     \<lparr>proc = \<lparr>control = At_for_next (feed cs StopIteration), stdout = [], stderr = [],
              exception = None, sys_path = default_path rt @ [''../../''],
              files = library_trace rt setup_calls fs', environ = vars, calls = setup_calls\<rparr>,
      pending = [], accesses = acc, uncaught_io = None, ended = None\<rparr>"
    by (simp add: q4)
  define qn where "qn = run_io rt env (2 * length cs) q10"
  have "qn =
     q10\<lparr>proc := (proc q10)\<lparr>control := At_for_next StopIteration,
                         stdout := stdout (proc q10) @ concat (map (print_text env) cs),
                         calls := calls (proc q10) @ loop_calls env cs,
                         files := library_trace rt (loop_calls env cs) (files (proc q10))\<rparr>\<rparr>"
    unfolding qn_def using assms(3) by (intro run_io_loop) (simp_all add: q10)
  then have qn: "qn =
     \<lparr>proc = \<lparr>control = At_for_next StopIteration, stdout = concat (map (print_text env) cs),
              stderr = [], exception = None, sys_path = default_path rt @ [''../../''],
              files = library_trace rt (setup_calls @ loop_calls env cs) fs', environ = vars,
              calls = setup_calls @ loop_calls env cs\<rparr>,
      pending = [], accesses = acc, uncaught_io = None, ended = None\<rparr>"
    by (simp add: q10 library_trace_append)
  have two: "run_io rt env 2 qn =
     \<lparr>proc = \<lparr>control = Exited 0, stdout = concat (map (print_text env) cs), stderr = [],
              exception = None, sys_path = default_path rt @ [''../../''],
              files = library_trace rt (setup_calls @ loop_calls env cs @ [Call_next]) fs',
              environ = vars, calls = setup_calls @ loop_calls env cs @ [Call_next]\<rparr>,
      pending = [], accesses = acc, uncaught_io = None, ended = Some 0\<rparr>"
    using assms(4)
    by (simp add: qn numeral_eq_Suc step_io_defs step_defs library_trace_append)
  have "run_io rt env (4 + 6 + 2 * length cs + 2) (boot rt fs vars) = run_io rt env 2 qn"
    by (simp only: run_io_add qn_def q10_def q4_def)
  with two have r: "run_io rt env (4 + 6 + 2 * length cs + 2) (boot rt fs vars) =
     \<lparr>proc = \<lparr>control = Exited 0, stdout = concat (map (print_text env) cs), stderr = [],
              exception = None, sys_path = default_path rt @ [''../../''],
              files = library_trace rt (setup_calls @ loop_calls env cs @ [Call_next]) fs',
              environ = vars, calls = setup_calls @ loop_calls env cs @ [Call_next]\<rparr>,
      pending = [], accesses = acc, uncaught_io = None, ended = Some 0\<rparr>"
    by (simp only:)
  then have "ended (run_io rt env (4 + 6 + 2 * length cs + 2) (boot rt fs vars)) \<noteq> None"
    by simp
  from python_ends[OF this] r show ?thesis by (simp only:)
qed

text \<open>
  On such a run the two layers agree.
\<close>

lemma python_agrees_with_script:
  assumes "import_all rt (default_path rt @ [''../../'']) fs imported_modules = Some (fs', acc)"
    and "subscription env fs' = Inr (feed cs StopIteration)"
    and "accepts rt [] (map (print_text env) cs)"
    and "\<not> flush_fails rt (concat (map (print_text env) cs))"
  shows "\<exists>p q. script env fs' vars = Some p \<and> python rt env fs vars = Some q
     \<and> stdout (proc q) = stdout p \<and> stderr (proc q) = stderr p \<and> calls (proc q) = calls p
     \<and> exception (proc q) = exception p \<and> ended q = exit_status p"
  using script_finite_closed[OF assms(2), of vars] python_closed[OF assms, of vars]
  by (simp add: exit_status_def)














subsection \<open>What holds at every point of a run\<close>








lemma import_module_frame:
  assumes "import_module rt path fs m = Some (fs', acc)"
  shows "(\<forall>pth. Write_file pth \<notin> set acc \<longrightarrow> fs' pth = fs pth)
     \<and> (\<forall>a \<in> set acc. \<exists>d \<in> set path.
           a = Read_file (d @ module_file rt m) \<or> a = Read_file (d @ cache_file rt m)
           \<or> a = Write_file (d @ cache_file rt m))"
proof (cases "find (\<lambda>d. fs (d @ module_file rt m) \<noteq> None) path")
  case None
  with assms show ?thesis by (simp add: import_module_def)
next
  case (Some d)
  then have "d \<in> set path" by (auto simp: find_Some_iff)
  with assms Some show ?thesis
    by (auto simp: import_module_def split: option.splits file_entry.splits if_splits)
qed

lemma import_all_frame:
  assumes "import_all rt path fs ms = Some (fs', acc)"
  shows "\<forall>pth. Write_file pth \<notin> set acc \<longrightarrow> fs' pth = fs pth"
  using assms
proof (induction ms arbitrary: fs acc)
  case Nil
  then show ?case by simp
next
  case (Cons m ms)
  from Cons.prems obtain fs1 acc1 acc2 where
    one: "import_module rt path fs m = Some (fs1, acc1)"
    and rest: "import_all rt path fs1 ms = Some (fs', acc2)" and acc: "acc = acc1 @ acc2"
    by (auto split: option.splits)
  from import_module_frame[OF one] Cons.IH[OF rest] acc show ?case by simp
qed













subsection \<open>The example inputs\<close>





section \<open>The properties of the specification\<close>








text \<open>
  C4: with a certificate that loads and a server address that cannot be reached, the
  channel constructor (as the specification describes it) raises a \<^verbatim>\<open>ConnectionError\<close>; the
  script stops at line 17 with that exception. The calls made are the three up to the channel
  constructor: no RPC call is issued and nothing is read from a stream.
\<close>

theorem unreachable_address_no_rpc:
  assumes "fs PATH_TO_CERT_FILE = Some (Contents bs)"
    and "ssl_channel_credentials env bs = Inr credentials"
    and "secure_channel env = spec_secure_channel reachable"
    and "\<not> reachable SERVER_ADDRESS"
  shows "\<exists>p. script env fs vars = Some p
     \<and> exception p = Some ConnectionError
     \<and> calls p =
         [Call_open PATH_TO_CERT_FILE, Call_ssl_channel_credentials, Call_secure_channel SERVER_ADDRESS]
     \<and> Call_SubscribeSocialSentiment \<notin> set (calls p)
     \<and> Call_next \<notin> set (calls p)
     \<and> stdout p = []
     \<and> exit_status p = Some 1"
proof -
  let ?q = "\<lparr>control = Exited 1, stdout = [], stderr = traceback ConnectionError,
      exception = Some ConnectionError, sys_path = [''../../''], files = fs, environ = vars,
      calls = [Call_open PATH_TO_CERT_FILE, Call_ssl_channel_credentials,
               Call_secure_channel SERVER_ADDRESS]\<rparr> :: ('a, 'b, 'c) process"
  from assms have r: "run env 4 (start fs vars) = ?q"
    by (simp add: numeral_eq_Suc start_def step_defs open_read_def spec_secure_channel_def)
  then have "exit_status (run env 4 (start fs vars)) \<noteq> None"
    by (simp add: exit_status_def)
  from exec_run[OF this] r have "script env fs vars = Some ?q"
    by (simp add: script_def)
  then show ?thesis by (simp add: exit_status_def)
qed

theorem unreachable_address_no_rpc_witness:
  "\<exists>p. script
        ((demo_env (feed demo_candles StopIteration) (\<lambda>s. s) (\<lambda>s. s))
           \<lparr>secure_channel := spec_secure_channel (\<lambda>address. False)\<rparr>)
        demo_files Map.empty = Some p
     \<and> exception p = Some ConnectionError
     \<and> Call_SubscribeSocialSentiment \<notin> set (calls p)
     \<and> stdout p = []
     \<and> exit_status p = Some 1"
  using unreachable_address_no_rpc
    [of demo_files "replicate 200 0x2D"
        "(demo_env (feed demo_candles StopIteration) (\<lambda>s. s) (\<lambda>s. s))
           \<lparr>secure_channel := spec_secure_channel (\<lambda>address. False)\<rparr>"
        "ChannelCredentials (replicate 200 0x2D)" "\<lambda>address. False" Map.empty]
  by (simp add: demo_files_def demo_env_def) blast

text \<open>
  C5: when the certificate path holds no file, or a file that cannot be read, \<^verbatim>\<open>open\<close> raises
  a \<^verbatim>\<open>FileError\<close>; when the file is empty, the credential constructor (as the specification
  describes it) raises a \<^verbatim>\<open>CredentialFormatError\<close>. Either way the process exits with that
  exception, and it has made no attempt to open a channel.
\<close>

theorem bad_certificate_no_channel:
  assumes "fs PATH_TO_CERT_FILE = None \<or> fs PATH_TO_CERT_FILE = Some Unreadable
      \<or> fs PATH_TO_CERT_FILE = Some (Contents [])"
    and "ssl_channel_credentials env = spec_ssl_channel_credentials valid"
  shows "\<exists>p. script env fs vars = Some p
     \<and> exception p =
         Some (if fs PATH_TO_CERT_FILE = Some (Contents []) then CredentialFormatError else FileError)
     \<and> (\<forall>address. Call_secure_channel address \<notin> set (calls p))
     \<and> Call_SubscribeSocialSentiment \<notin> set (calls p)
     \<and> stdout p = []
     \<and> exit_status p = Some 1"
proof (cases "fs PATH_TO_CERT_FILE = Some (Contents [])")
  case False
  with assms(1) have f: "open_read fs PATH_TO_CERT_FILE = Inl FileError"
    by (auto simp: open_read_def)
  let ?q = "\<lparr>control = Exited 1, stdout = [], stderr = traceback FileError,
      exception = Some FileError, sys_path = [''../../''], files = fs, environ = vars,
      calls = [Call_open PATH_TO_CERT_FILE]\<rparr> :: ('a, 'b, 'c) process"
  from f have r: "run env 2 (start fs vars) = ?q"
    by (simp add: numeral_eq_Suc start_def step_defs)
  then have "exit_status (run env 2 (start fs vars)) \<noteq> None"
    by (simp add: exit_status_def)
  from exec_run[OF this] r have "script env fs vars = Some ?q"
    by (simp add: script_def)
  with False show ?thesis by (simp add: exit_status_def)
next
  case True
  let ?q = "\<lparr>control = Exited 1, stdout = [], stderr = traceback CredentialFormatError,
      exception = Some CredentialFormatError, sys_path = [''../../''], files = fs, environ = vars,
      calls = [Call_open PATH_TO_CERT_FILE, Call_ssl_channel_credentials]\<rparr> :: ('a, 'b, 'c) process"
  from True assms(2) have r: "run env 3 (start fs vars) = ?q"
    by (simp add: numeral_eq_Suc start_def step_defs open_read_def spec_ssl_channel_credentials_def)
  then have "exit_status (run env 3 (start fs vars)) \<noteq> None"
    by (simp add: exit_status_def)
  from exec_run[OF this] r have "script env fs vars = Some ?q"
    by (simp add: script_def)
  with True show ?thesis by (simp add: exit_status_def)
qed

theorem bad_certificate_no_channel_witness:
  "(\<exists>p. script
        ((demo_env (feed demo_candles StopIteration) (\<lambda>s. s) (\<lambda>s. s))
           \<lparr>ssl_channel_credentials := spec_ssl_channel_credentials (\<lambda>bs. True)\<rparr>)
        Map.empty Map.empty = Some p
     \<and> exception p = Some FileError
     \<and> Call_secure_channel SERVER_ADDRESS \<notin> set (calls p)
     \<and> exit_status p = Some 1)
   \<and> (\<exists>p. script
        ((demo_env (feed demo_candles StopIteration) (\<lambda>s. s) (\<lambda>s. s))
           \<lparr>ssl_channel_credentials := spec_ssl_channel_credentials (\<lambda>bs. True)\<rparr>)
        [PATH_TO_CERT_FILE \<mapsto> Contents []] Map.empty = Some p
     \<and> exception p = Some CredentialFormatError
     \<and> Call_secure_channel SERVER_ADDRESS \<notin> set (calls p)
     \<and> exit_status p = Some 1)"
  using bad_certificate_no_channel
    [of Map.empty
        "(demo_env (feed demo_candles StopIteration) (\<lambda>s. s) (\<lambda>s. s))
           \<lparr>ssl_channel_credentials := spec_ssl_channel_credentials (\<lambda>bs. True)\<rparr>"
        "\<lambda>bs. True" Map.empty]
    bad_certificate_no_channel
    [of "[PATH_TO_CERT_FILE \<mapsto> Contents []]"
        "(demo_env (feed demo_candles StopIteration) (\<lambda>s. s) (\<lambda>s. s))
           \<lparr>ssl_channel_credentials := spec_ssl_channel_credentials (\<lambda>bs. True)\<rparr>"
        "\<lambda>bs. True" Map.empty]
  by (simp add: demo_env_def) blast




text \<open>
  C7: a process starts in \<open>Idle\<close>. Every step leaves the state of the specification as it
  is or follows an arrow of the chain, every arrow leads to a later state, and so a later
  point of a run is never in an earlier state. \<open>Completed\<close> and \<open>Failed\<close> are the states of
  an exited process, which makes no further step. At every point of every run, each call
  outside the loop has been made at most once.
\<close>

theorem state_machine_forward:
  "spec_state_of (control (start fs vars)) = Idle
   \<and> (spec_state_of (control (step env p)) = spec_state_of (control p)
        \<or> spec_arrow (spec_state_of (control p)) (spec_state_of (control (step env p))))
   \<and> (spec_arrow s t \<longrightarrow> spec_rank s < spec_rank t)
   \<and> spec_rank (spec_state_of (control (run env n (start fs vars))))
        \<le> spec_rank (spec_state_of (control (run env (n + m) (start fs vars))))
   \<and> (spec_state_of (control p) \<in> {Completed, Failed} \<longleftrightarrow> exit_status p \<noteq> None)
   \<and> (exit_status p \<noteq> None \<longrightarrow> step env p = p)
   \<and> (c \<noteq> Call_next \<and> (\<forall>t. c \<noteq> Call_print t)
        \<longrightarrow> count_list (calls (run env n (start fs vars))) c \<le> 1)"
proof (intro conjI impI)
  show "spec_state_of (control (start fs vars)) = Idle" by (simp add: start_def)
  show "spec_state_of (control (step env p)) = spec_state_of (control p)
        \<or> spec_arrow (spec_state_of (control p)) (spec_state_of (control (step env p)))"
    by (rule step_forward)
  show "spec_rank s < spec_rank t" if "spec_arrow s t" using that by (rule spec_arrow_rank)
  show "spec_rank (spec_state_of (control (run env n (start fs vars))))
        \<le> spec_rank (spec_state_of (control (run env (n + m) (start fs vars))))"
    using run_rank[of "run env n (start fs vars)" env m] by (simp add: run_add)
  show "spec_state_of (control p) \<in> {Completed, Failed} \<longleftrightarrow> exit_status p \<noteq> None"
    by (rule terminal_exited)
  show "step env p = p" if "exit_status p \<noteq> None" using that by (rule step_exited)
  show "count_list (calls (run env n (start fs vars))) c \<le> 1"
    if "c \<noteq> Call_next \<and> (\<forall>t. c \<noteq> Call_print t)"
    using that run_calls_once[of c env n fs vars] by blast
qed

theorem state_machine_forward_witness:
  "spec_state_of (control (run (demo_env (feed demo_candles StopIteration) (\<lambda>s. s) (\<lambda>s. s)) 3
       (start demo_files Map.empty))) = CredentialsLoaded
   \<and> spec_state_of (control (run (demo_env (feed demo_candles StopIteration) (\<lambda>s. s) (\<lambda>s. s)) 12
       (start demo_files Map.empty))) = Completed
   \<and> spec_rank CredentialsLoaded < spec_rank ChannelOpen
   \<and> spec_rank (spec_state_of (control (run (demo_env (feed demo_candles StopIteration) (\<lambda>s. s) (\<lambda>s. s)) 3
        (start demo_files Map.empty))))
      \<le> spec_rank (spec_state_of (control (run (demo_env (feed demo_candles StopIteration) (\<lambda>s. s) (\<lambda>s. s)) 12
        (start demo_files Map.empty))))
   \<and> count_list (calls (run (demo_env (feed demo_candles StopIteration) (\<lambda>s. s) (\<lambda>s. s)) 3
        (start demo_files Map.empty))) Call_SubscribeSocialSentiment \<le> 1"
proof -
  have a: "spec_state_of (control (run (demo_env (feed demo_candles StopIteration) (\<lambda>s. s) (\<lambda>s. s)) 3
       (start demo_files Map.empty))) = CredentialsLoaded"
    by (simp add: numeral_eq_Suc start_def step_defs demo_env_def demo_files_def open_read_def)
  have b: "spec_state_of (control (run (demo_env (feed demo_candles StopIteration) (\<lambda>s. s) (\<lambda>s. s)) 12
       (start demo_files Map.empty))) = Completed"
    by (simp add: numeral_eq_Suc start_def step_defs demo_env_def demo_files_def open_read_def
        demo_candles_def)
  note t = state_machine_forward
    [where fs = demo_files and vars = Map.empty
       and env = "demo_env (feed demo_candles StopIteration) (\<lambda>s. s) (\<lambda>s. s)"
       and p = "start demo_files Map.empty" and s = CredentialsLoaded and t = ChannelOpen
       and n = 3 and m = 9 and c = Call_SubscribeSocialSentiment]
  have ar: "spec_arrow CredentialsLoaded ChannelOpen" by simp
  have nl: "Call_SubscribeSocialSentiment \<noteq> Call_next
      \<and> (\<forall>t. Call_SubscribeSocialSentiment \<noteq> Call_print t)" by simp
  from t ar have c: "spec_rank CredentialsLoaded < spec_rank ChannelOpen" by blast
  from t have d: "spec_rank (spec_state_of (control (run (demo_env (feed demo_candles StopIteration) (\<lambda>s. s) (\<lambda>s. s)) 3
        (start demo_files Map.empty))))
      \<le> spec_rank (spec_state_of (control (run (demo_env (feed demo_candles StopIteration) (\<lambda>s. s) (\<lambda>s. s)) (3 + 9)
        (start demo_files Map.empty))))" by blast
  from t nl have e: "count_list (calls (run (demo_env (feed demo_candles StopIteration) (\<lambda>s. s) (\<lambda>s. s)) 3
        (start demo_files Map.empty))) Call_SubscribeSocialSentiment \<le> 1" by blast
  from a b c d e show ?thesis by simp
qed







text \<open>
  C10: two finite streams of the same length whose messages agree, position by position,
  on \<^verbatim>\<open>id\<close> and \<^verbatim>\<open>sentiment_avg\<close> give the same standard output. The other fields of the messages
  may differ, and even be of different types.
\<close>

theorem output_depends_on_two_fields:
  assumes "subscription env1 fs1 = Inr (feed cs1 t1)" and "t1 = StopIteration \<or> t1 = Raise e1"
    and "subscription env2 fs2 = Inr (feed cs2 t2)" and "t2 = StopIteration \<or> t2 = Raise e2"
    and "length cs1 = length cs2"
    and "\<forall>k<length cs1. id_field (cs1 ! k) = id_field (cs2 ! k)
           \<and> sentiment_avg (cs1 ! k) = sentiment_avg (cs2 ! k)"
    and "str_id env1 = str_id env2" and "str_sentiment_avg env1 = str_sentiment_avg env2"
  shows "\<exists>p1 p2. script env1 fs1 vars1 = Some p1 \<and> script env2 fs2 vars2 = Some p2
     \<and> stdout p1 = stdout p2"
proof -
  from script_finite_stdout[OF assms(1,2), of vars1] obtain p1 where
    p1: "script env1 fs1 vars1 = Some p1" "stdout p1 = concat (map (print_text env1) cs1)" by blast
  from script_finite_stdout[OF assms(3,4), of vars2] obtain p2 where
    p2: "script env2 fs2 vars2 = Some p2" "stdout p2 = concat (map (print_text env2) cs2)" by blast
  from print_text_agree[OF assms(5-8)] p1 p2 show ?thesis by simp
qed

theorem output_depends_on_two_fields_witness:
  "\<exists>p1 p2.
     script (demo_env (feed demo_candles StopIteration) (\<lambda>s. s) (\<lambda>s. s)) demo_files Map.empty = Some p1
     \<and> script (demo_env (feed demo_candles_more StopIteration) (\<lambda>s. s) (\<lambda>s. s)) demo_files Map.empty
         = Some p2
     \<and> stdout p1 = stdout p2"
  using output_depends_on_two_fields
    [of "demo_env (feed demo_candles StopIteration) (\<lambda>s. s) (\<lambda>s. s)" demo_files demo_candles
        StopIteration StreamError
        "demo_env (feed demo_candles_more StopIteration) (\<lambda>s. s) (\<lambda>s. s)" demo_files demo_candles_more
        StopIteration StreamError Map.empty Map.empty]
  by (simp add: demo_subscription) (auto simp: demo_candles_def demo_candles_more_def demo_env_def less_Suc_eq)

end
